theory Spec2Isabelle
  imports Complex_Main "HOL-Library.AList"
begin

section \<open>JavaScript values used by the player\<close>

text \<open>
  The library is JavaScript, so every argument may be left out. The model keeps the
  values the code can tell apart:
  \<^item> a value in a numeric position (\<open>when\<close>, \<open>duration\<close>, a number option) is
    \<open>Undefined\<close> (the argument was omitted), \<open>NaN\<close> (what \<open>undefined + x\<close> gives) or
    a number. Numbers are JavaScript doubles; the model reads a finite double as the
    real number it denotes, so rounding and the infinities are outside the model;
  \<^item> an option value is such a number, \<open>null\<close>, a boolean, a text or an array of
    numbers.
\<close>

datatype jsnum = Undefined | NaN | Num real

datatype optval = VNum jsnum | VNull | VBool bool | VStr string | VArr "jsnum list"

datatype error = TypeError

text \<open>\<open>!!x\<close>: \<open>undefined\<close>, \<open>NaN\<close> and \<open>0\<close> are falsy, every other number is truthy.\<close>

fun truthy :: "jsnum \<Rightarrow> bool" where
  "truthy (Num r) = (r \<noteq> 0)"
| "truthy Undefined = False"
| "truthy NaN = False"

text \<open>\<open>a || b\<close>\<close>

definition js_or :: "jsnum \<Rightarrow> jsnum \<Rightarrow> jsnum" where
  "js_or a b = (if truthy a then a else b)"

text \<open>\<open>a + b\<close> on numbers and \<open>undefined\<close>: anything but two numbers gives \<open>NaN\<close>.\<close>

fun js_add :: "jsnum \<Rightarrow> jsnum \<Rightarrow> jsnum" where
  "js_add (Num a) (Num b) = Num (a + b)"
| "js_add _ _ = NaN"

text \<open>\<open>a * b\<close>, likewise.\<close>

fun js_mul :: "jsnum \<Rightarrow> jsnum \<Rightarrow> jsnum" where
  "js_mul (Num a) (Num b) = Num (a * b)"
| "js_mul _ _ = NaN"

text \<open>\<open>a / b\<close> for a non-zero number \<open>b\<close> (the only division of the source is by 1200).\<close>

fun js_div :: "jsnum \<Rightarrow> real \<Rightarrow> jsnum" where
  "js_div (Num a) b = Num (a / b)"
| "js_div _ b = NaN"

text \<open>\<open>x > 0\<close>: true for a positive number only; \<open>undefined > 0\<close> and \<open>NaN > 0\<close> are false.\<close>

fun js_gt0 :: "jsnum \<Rightarrow> bool" where
  "js_gt0 (Num d) = (0 < d)"
| "js_gt0 _ = False"

text \<open>
  The number JavaScript makes of a text (StringToNumber): white space around it is
  dropped; the empty text is 0; a text of the form \<open>0x\<close>, \<open>0o\<close> or \<open>0b\<close> followed by digits of
  that base is that integer; a decimal literal (an optional sign, digits with an
  optional point, an optional exponent) is its value; every other text is \<open>NaN\<close>.
  Texts are taken as ASCII. The text \<open>Infinity\<close> is outside the model, as the infinities
  are, and reads as \<open>NaN\<close> here.
\<close>

definition is_space :: "char \<Rightarrow> bool" where
  "is_space c = (of_char c \<in> {9, 10, 11, 12, 13, 32 :: nat})"

definition strip_space :: "string \<Rightarrow> string" where
  "strip_space s = rev (dropWhile is_space (rev (dropWhile is_space s)))"

definition digit_val :: "char \<Rightarrow> nat" where
  "digit_val c =
     (let n = of_char c :: nat in
      if 48 \<le> n \<and> n \<le> 57 then n - 48
      else if 97 \<le> n \<and> n \<le> 102 then n - 87
      else if 65 \<le> n \<and> n \<le> 70 then n - 55
      else 36)"

definition numeral_in :: "nat \<Rightarrow> string \<Rightarrow> nat option" where
  "numeral_in b s =
     (if list_all (\<lambda>c. digit_val c < b) s
      then Some (foldl (\<lambda>n c. n * b + digit_val c) 0 s) else None)"

text \<open>The text before the first of the given characters, and the text after it, if any.\<close>

definition cut :: "string \<Rightarrow> string \<Rightarrow> string \<times> string option" where
  "cut cs s =
     (takeWhile (\<lambda>c. c \<notin> set cs) s,
      case dropWhile (\<lambda>c. c \<notin> set cs) s of [] \<Rightarrow> None | c # r \<Rightarrow> Some r)"

definition split_sign :: "string \<Rightarrow> bool \<times> string" where
  "split_sign s =
     (case s of
        [] \<Rightarrow> (False, s)
      | c # r \<Rightarrow> if c = CHR ''-'' then (True, r) else if c = CHR ''+'' then (False, r) else (False, s))"

definition mantissa_of :: "string \<Rightarrow> real option" where
  "mantissa_of m =
     (case cut ''.'' m of
        (ip, None) \<Rightarrow> if ip = [] then None else map_option real (numeral_in 10 ip)
      | (ip, Some fp) \<Rightarrow>
          if ip = [] \<and> fp = [] then None
          else (case (numeral_in 10 ip, numeral_in 10 fp) of
                  (Some i, Some f) \<Rightarrow> Some (real i + real f / 10 ^ length fp)
                | _ \<Rightarrow> None))"

definition exponent_of :: "string option \<Rightarrow> int option" where
  "exponent_of e =
     (case e of
        None \<Rightarrow> Some 0
      | Some t \<Rightarrow>
          (let (neg, d) = split_sign t in
           if d = [] then None
           else map_option (\<lambda>n. if neg then - int n else int n) (numeral_in 10 d)))"

definition times_pow10 :: "real \<Rightarrow> int \<Rightarrow> real" where
  "times_pow10 x k = (if 0 \<le> k then x * 10 ^ nat k else x / 10 ^ nat (- k))"

definition unsigned_decimal :: "string \<Rightarrow> real option" where
  "unsigned_decimal s =
     (case cut ''eE'' s of
        (m, e) \<Rightarrow>
          (case (mantissa_of m, exponent_of e) of
             (Some x, Some k) \<Rightarrow> Some (times_pow10 x k)
           | _ \<Rightarrow> None))"

definition non_decimal :: "string \<Rightarrow> nat option" where
  "non_decimal s =
     (case s of
        z # x # r \<Rightarrow>
          if z = CHR ''0'' \<and> r \<noteq> [] then
            (if x \<in> set ''xX'' then numeral_in 16 r
             else if x \<in> set ''oO'' then numeral_in 8 r
             else if x \<in> set ''bB'' then numeral_in 2 r
             else None)
          else None
      | _ \<Rightarrow> None)"

definition StringToNumber :: "string \<Rightarrow> jsnum" where
  "StringToNumber s =
     (let t = strip_space s in
      if t = [] then Num 0
      else (case non_decimal t of
              Some n \<Rightarrow> Num (real n)
            | None \<Rightarrow>
                (let (neg, u) = split_sign t in
                 case unsigned_decimal u of
                   Some x \<Rightarrow> Num (if neg then - x else x)
                 | None \<Rightarrow> NaN)))"

text \<open>
  The number JavaScript makes of an option value in a numeric position (\<open>opts('pitch') * 100\<close>):
  a number is itself, \<open>undefined\<close> is \<open>NaN\<close>, \<open>null\<close> is 0, \<open>true\<close> is 1 and \<open>false\<close> is 0, a
  text is its StringToNumber. An array is first made a text, its elements joined by
  commas: the empty array gives the empty text, so 0; an array of one number gives that
  number (of one \<open>undefined\<close>, the empty text, so 0); a longer one has a comma, so \<open>NaN\<close>.
\<close>

fun toNumber :: "optval \<Rightarrow> jsnum" where
  "toNumber (VNum Undefined) = NaN"
| "toNumber (VNum n) = n"
| "toNumber VNull = Num 0"
| "toNumber (VBool b) = Num (if b then 1 else 0)"
| "toNumber (VStr s) = StringToNumber s"
| "toNumber (VArr []) = Num 0"
| "toNumber (VArr [Undefined]) = Num 0"
| "toNumber (VArr [x]) = x"
| "toNumber (VArr (x # y # zs)) = NaN"

text \<open>
  \<open>v[i]\<close>: reading an index of \<open>undefined\<close> or of \<open>null\<close> throws a TypeError; an array
  gives its element, or \<open>undefined\<close> out of range; a text gives its character; a number
  or a boolean gives \<open>undefined\<close>.
\<close>

fun js_index :: "optval \<Rightarrow> nat \<Rightarrow> error + optval" where
  "js_index (VNum Undefined) i = Inl TypeError"
| "js_index VNull i = Inl TypeError"
| "js_index (VNum n) i = Inr (VNum Undefined)"
| "js_index (VBool b) i = Inr (VNum Undefined)"
| "js_index (VStr s) i = Inr (if i < length s then VStr [s ! i] else VNum Undefined)"
| "js_index (VArr xs) i = Inr (VNum (if i < length xs then xs ! i else Undefined))"

section \<open>Option hashes and the resolver \<open>from\<close>\<close>

text \<open>
  A hash of options is the partial map of the properties the \<open>in\<close> operator sees. An
  argument that should be a hash may be missing: \<open>None\<close> is \<open>undefined\<close> (or \<open>null\<close>), and
  both \<open>name in undefined\<close> and \<open>undefined[name]\<close> throw a TypeError.
\<close>

type_synonym hash = "string \<rightharpoonup> optval"

definition DEFAULTS :: hash where
  "DEFAULTS =
     [''gain'' \<mapsto> VNum (Num 1),
      ''loop'' \<mapsto> VBool False,
      ''pitch'' \<mapsto> VNum (Num 0),
      ''loopStart'' \<mapsto> VNum (Num 0),
      ''loopEnd'' \<mapsto> VNum (Num 0),
      ''adsr'' \<mapsto> VArr [Num 0.01, Num 0.1, Num 0.8, Num 0.3],
      ''filter'' \<mapsto> VStr ''highpass'',
      ''freq'' \<mapsto> VNum (Num 0)]"

text \<open>\<open>h[name]\<close> on a hash: the value, or \<open>undefined\<close> when the name is absent.\<close>

definition js_get :: "hash \<Rightarrow> string \<Rightarrow> optval" where
  "js_get h name = (case h name of Some v \<Rightarrow> v | None \<Rightarrow> VNum Undefined)"

text \<open>
  \<open>function from (a, b, c) { return function (name) {
     return name in a ? a[name] : (name in b ? b[name] : c[name]) } }\<close>
\<close>

definition from' :: "hash option \<Rightarrow> hash option \<Rightarrow> hash option \<Rightarrow> string \<Rightarrow> error + optval" where
  "from' a b c name =
     (case a of
        None \<Rightarrow> Inl TypeError
      | Some ha \<Rightarrow>
          if name \<in> dom ha then Inr (js_get ha name)
          else (case b of
                  None \<Rightarrow> Inl TypeError
                | Some hb \<Rightarrow>
                    if name \<in> dom hb then Inr (js_get hb name)
                    else (case c of
                            None \<Rightarrow> Inl TypeError
                          | Some hc \<Rightarrow> Inr (js_get hc name))))"

section \<open>Pitch to playback rate\<close>

text \<open>\<open>function centsToRate (cents) { return Math.pow(2, cents / 1200) }\<close>\<close>

fun js_pow2 :: "jsnum \<Rightarrow> jsnum" where
  "js_pow2 (Num x) = Num (2 powr x)"
| "js_pow2 _ = NaN"

definition centsToRate :: "jsnum \<Rightarrow> jsnum" where
  "centsToRate cents = js_pow2 (js_div cents 1200)"

section \<open>The host audio runtime and the state of a player\<close>

text \<open>
  The audio context, its nodes and the envelope generator are supplied by the host. The
  model gives every node a handle and records each call the library makes on the host,
  in order, in a trace; host calls are taken to succeed. Events sent to the event sink
  and calls of a voice's \<open>onended\<close> callback are recorded in the same trace; the sink
  is the caller's and is taken to return. The time the envelope generator returns from
  \<open>stop\<close> is the host's: \<open>env_stop\<close>. There is one audio context, so one clock.
\<close>

type_synonym node = nat

type_synonym buffer = nat

type_synonym sink = nat

text \<open>
  \<open>s.onended\<close>: the prototype's \<open>function () { }\<close>, or the closure that
  \<open>Player.prototype.start\<close> installs, \<open>function () { delete tracked[s.id] }\<close>.
\<close>

datatype callback = Prototype_onended | Delete_tracked

text \<open>
  A \<open>Sample\<close> object: its id (set by the player only), its four nodes, its event sink
  (\<open>None\<close> is the default \<open>function () {}\<close>) and its \<open>onended\<close> callback. The library
  changes a sample's fields only inside \<open>Player.prototype.start\<close>, before the sample is
  used, so the model passes samples by value.
\<close>

record sample =
  s_id :: "nat option"
  s_event :: "sink option"
  s_amp :: node
  s_env :: node
  s_filter :: node
  s_source :: node
  s_onended :: callback

datatype target = ToNode node | ToParam node string

datatype action =
    CreateGain node
  | CreateBiquadFilter node
  | CreateBufferSource node
  | CreateADSR node
  | Assign node string optval
  | AssignBuffer node "buffer option"
  | AssignOnended node
  | Connect node target
  | Disconnect node
  | EnvStart node jsnum
  | EnvStop node jsnum
  | SourceStart node jsnum
  | SourceStop node jsnum
  | Event string sample jsnum
  | Onended sample

text \<open>
  The state: the host's clock, its envelope generator's answer to \<open>stop\<close>, the next unused
  node handle and the trace; then the fields of the \<open>Player\<close> object. \<open>playing\<close> is
  \<open>_playing\<close>, the object that maps an id to its sample, kept as an association list:
  \<open>map_of\<close> is its lookup.
\<close>

record world =
  currentTime :: real
  env_stop :: "node \<Rightarrow> jsnum \<Rightarrow> jsnum"
  fresh :: node
  trace :: "action list"
  options :: hash
  nextId :: nat
  playing :: "(nat \<times> sample) list"
  onevent :: "sink option"
  output_node :: node

definition emit :: "action \<Rightarrow> world \<Rightarrow> world" where
  "emit a w = w\<lparr>trace := trace w @ [a]\<rparr>"

text \<open>A host factory call: a new node with the next handle.\<close>

definition create :: "(node \<Rightarrow> action) \<Rightarrow> world \<Rightarrow> node \<times> world" where
  "create mk w = (fresh w, emit (mk (fresh w)) (w\<lparr>fresh := Suc (fresh w)\<rparr>))"

section \<open>Sample\<close>

text \<open>
  \<open>function adsr (ac, adsr) {
     return ['attack', 'decay', 'sustain', 'release'].reduce(function (env, n, i) {
       env[n] = adsr[i]
       return env
     }, ADSR(ac)) }\<close>
  The envelope is created before the first element is read.
\<close>

fun set_params :: "node \<Rightarrow> optval \<Rightarrow> (string \<times> nat) list \<Rightarrow> world \<Rightarrow> error option \<times> world" where
  "set_params e a [] w = (None, w)"
| "set_params e a ((n, i) # ns) w =
     (case js_index a i of
        Inl err \<Rightarrow> (Some err, w)
      | Inr v \<Rightarrow> set_params e a ns (emit (Assign e n v) w))"

definition adsr :: "optval \<Rightarrow> world \<Rightarrow> (error + node) \<times> world" where
  "adsr a w =
     (let (e, w1) = create CreateADSR w in
      case set_params e a [(''attack'', 0), (''decay'', 1), (''sustain'', 2), (''release'', 3)] w1 of
        (Some err, w2) \<Rightarrow> (Inl err, w2)
      | (None, w2) \<Rightarrow> (Inr e, w2))"

text \<open>
  The third argument of \<open>Sample\<close>: an accessor function (used as it is), or a hash or
  nothing (wrapped by \<open>from(options, {}, {})\<close>).
\<close>

datatype sample_options = Accessor "string \<Rightarrow> error + optval" | Hash "hash option"

definition accessor :: "sample_options \<Rightarrow> string \<Rightarrow> error + optval" where
  "accessor opt =
     (case opt of
        Accessor f \<Rightarrow> f
      | Hash h \<Rightarrow> from' h (Some Map.empty) (Some Map.empty))"

text \<open>
  Sequencing with exceptions: when a step throws, the rest is skipped and the state
  reached so far is kept.
\<close>

definition and_then :: "(error + 'a) \<times> world \<Rightarrow> ('a \<Rightarrow> world \<Rightarrow> (error + 'b) \<times> world)
    \<Rightarrow> (error + 'b) \<times> world" where
  "and_then m k = (case m of (Inl err, w) \<Rightarrow> (Inl err, w) | (Inr v, w) \<Rightarrow> k v w)"

text \<open>
  \<open>function Sample (buffer, destination, options, event)\<close>, block by block.

  \<open>s.amp = s.ac.createGain(); s.amp.gain.value = 0; s.amp.connect(destination || s.output)\<close>
  (the destination is there: \<open>destination.context\<close> was read before).
\<close>

definition make_amp :: "node \<Rightarrow> world \<Rightarrow> node \<times> world" where
  "make_amp dest w =
     (let (amp, w1) = create CreateGain w;
          w2 = emit (Assign amp ''gain'' (VNum (Num 0))) w1
      in (amp, emit (Connect amp (ToNode dest)) w2))"

text \<open>
  \<open>s.env = adsr(s.ac, opts('adsr')); s.env.value.value = opts('gain');
  s.env.connect(s.amp.gain)\<close>
\<close>

definition make_env :: "(string \<Rightarrow> error + optval) \<Rightarrow> node \<Rightarrow> world \<Rightarrow> (error + node) \<times> world" where
  "make_env opts amp w =
     and_then (opts ''adsr'', w) (\<lambda>a w1.
     and_then (adsr a w1) (\<lambda>env w2.
     and_then (opts ''gain'', w2) (\<lambda>g w3.
       (Inr env, emit (Connect env (ToParam amp ''gain'')) (emit (Assign env ''value'' g) w3)))))"

text \<open>
  \<open>s.filter = s.ac.createBiquadFilter(); s.filter.type = opts('filter');
  s.filter.frequency.value = opts('freq'); s.filter.connect(s.amp)\<close>
\<close>

definition make_filter :: "(string \<Rightarrow> error + optval) \<Rightarrow> node \<Rightarrow> world \<Rightarrow> (error + node) \<times> world" where
  "make_filter opts amp w =
     (let (flt, w1) = create CreateBiquadFilter w in
      and_then (opts ''filter'', w1) (\<lambda>ty w2.
      and_then (opts ''freq'', emit (Assign flt ''type'' ty) w2) (\<lambda>fr w3.
        (Inr flt, emit (Connect flt (ToNode amp)) (emit (Assign flt ''frequency'' fr) w3)))))"

text \<open>
  \<open>s.source = s.ac.createBufferSource(); s.source.buffer = buffer;
  s.source.loop = opts('loop'); s.source.connect(s.filter);
  s.source.playbackRate.value = centsToRate(opts('pitch') * 100);
  s.source.loopStart = opts('loopStart'); s.source.loopEnd = opts('loopEnd');
  s.source.onended = function () { ... }\<close>
\<close>

definition make_source :: "(string \<Rightarrow> error + optval) \<Rightarrow> buffer option \<Rightarrow> node \<Rightarrow> world
    \<Rightarrow> (error + node) \<times> world" where
  "make_source opts buf flt w =
     (let (src, w1) = create CreateBufferSource w in
      and_then (opts ''loop'', emit (AssignBuffer src buf) w1) (\<lambda>lp w2.
      and_then (opts ''pitch'', emit (Connect src (ToNode flt)) (emit (Assign src ''loop'' lp) w2)) (\<lambda>p w3.
      and_then (opts ''loopStart'',
          emit (Assign src ''playbackRate'' (VNum (centsToRate (js_mul (toNumber p) (Num 100))))) w3) (\<lambda>ls w4.
      and_then (opts ''loopEnd'', emit (Assign src ''loopStart'' ls) w4) (\<lambda>le w5.
        (Inr src, emit (AssignOnended src) (emit (Assign src ''loopEnd'' le) w5)))))))"

text \<open>
  The constructor. \<open>s.ac = destination.context\<close> throws a TypeError when the destination
  is missing, before any node exists (a destination that is given is an audio node,
  which has a context); nothing checks the buffer, which is assigned to the source as
  it is.
\<close>

definition Sample :: "buffer option \<Rightarrow> node option \<Rightarrow> sample_options \<Rightarrow> sink option
    \<Rightarrow> world \<Rightarrow> (error + sample) \<times> world" where
  "Sample buf destination opt event w =
     (let opts = accessor opt in
      case destination of
        None \<Rightarrow> (Inl TypeError, w)
      | Some dest \<Rightarrow>
          (let (amp, w1) = make_amp dest w in
           and_then (make_env opts amp w1) (\<lambda>env w2.
           and_then (make_filter opts amp w2) (\<lambda>flt w3.
           and_then (make_source opts buf flt w3) (\<lambda>src w4.
             (Inr \<lparr>s_id = None, s_event = event, s_amp = amp, s_env = env,
                   s_filter = flt, s_source = src, s_onended = Prototype_onended\<rparr>,
              w4))))))"

text \<open>
  \<open>Sample.prototype.stop = function (when) {
     this.event('stop', this, when)
     var stopAt = this.env.stop(when || this.ac.currentTime)
     this.source.stop(stopAt) }\<close>
\<close>

definition Sample_stop :: "sample \<Rightarrow> jsnum \<Rightarrow> world \<Rightarrow> world" where
  "Sample_stop s when w =
     (let w1 = emit (Event ''stop'' s when) w;
          t = js_or when (Num (currentTime w1));
          stopAt = env_stop w1 (s_env s) t;
          w2 = emit (EnvStop (s_env s) t) w1
      in emit (SourceStop (s_source s) stopAt) w2)"

text \<open>
  \<open>Sample.prototype.start = function (when, duration) {
     this.event('start', this, when)
     this.env.start(when)
     this.source.start(when)
     if (duration > 0) this.stop(when + duration) }\<close>
\<close>

definition Sample_start :: "sample \<Rightarrow> jsnum \<Rightarrow> jsnum \<Rightarrow> world \<Rightarrow> world" where
  "Sample_start s when duration w =
     (let w1 = emit (Event ''start'' s when) w;
          w2 = emit (EnvStart (s_env s) when) w1;
          w3 = emit (SourceStart (s_source s) when) w2
      in if js_gt0 duration then Sample_stop s (js_add when duration) w3 else w3)"

text \<open>
  The handler the constructor puts on the source, which the host calls when the source
  has finished:
  \<open>s.source.onended = function () {
     s.event('ended', s)
     s.source.stop()
     s.source.disconnect()
     s.filter.disconnect()
     s.amp.disconnect()
     s.env.disconnect()
     s.onended(this) }\<close>
  The last line runs the voice's callback: the prototype's does nothing, the player's
  is \<open>delete tracked[s.id]\<close>.
\<close>

definition run_callback :: "sample \<Rightarrow> world \<Rightarrow> world" where
  "run_callback s w =
     (case s_onended s of
        Prototype_onended \<Rightarrow> w
      | Delete_tracked \<Rightarrow>
          (case s_id s of
             None \<Rightarrow> w
           | Some i \<Rightarrow> w\<lparr>playing := AList.delete i (playing w)\<rparr>))"

definition source_onended :: "sample \<Rightarrow> world \<Rightarrow> world" where
  "source_onended s w =
     (let w1 = emit (Event ''ended'' s Undefined) w;
          w2 = emit (SourceStop (s_source s) Undefined) w1;
          w3 = emit (Disconnect (s_source s)) w2;
          w4 = emit (Disconnect (s_filter s)) w3;
          w5 = emit (Disconnect (s_amp s)) w4;
          w6 = emit (Disconnect (s_env s)) w5
      in run_callback s (emit (Onended s) w6))"

section \<open>Player\<close>

text \<open>
  \<open>function Player (ac, options)\<close>: the first argument is an audio context, or a
  destination node (it has a \<open>context\<close>), to which the new output is then connected.
\<close>

datatype ac_arg = AudioContext | AudioNode node

definition Player :: "ac_arg \<Rightarrow> hash option \<Rightarrow> world \<Rightarrow> world" where
  "Player ac opt w =
     (let w1 = w\<lparr>options := (case opt of None \<Rightarrow> Map.empty | Some h \<Rightarrow> h),
                 nextId := 1, playing := [], onevent := None\<rparr>;
          (out, w2) = create CreateGain w1;
          w3 = (case ac of AudioNode d \<Rightarrow> emit (Connect out (ToNode d)) w2 | AudioContext \<Rightarrow> w2)
      in w3\<lparr>output_node := out\<rparr>)"

text \<open>
  \<open>Player.prototype.start = function (buffer, when, duration, options, destination) {
     when = when || ac.currentTime
     var opts = from(options || {}, this.options, DEFAULTS)
     var s = new Sample(buffer, destination || this.output, opts, event)
     s.id = this.nextId++
     tracked[s.id] = s
     s.onended = function () { delete tracked[s.id] }
     s.start(when, duration)
     return s }\<close>
  When the constructor throws, nothing after it runs. The registry holds the sample
  object itself, so it sees the callback that is set after the sample is registered.
  The id counter is a JavaScript number, exact up to \<open>2 ^ 53\<close>; the model counts in
  \<open>nat\<close>.
\<close>

definition Player_start :: "buffer option \<Rightarrow> jsnum \<Rightarrow> jsnum \<Rightarrow> hash option \<Rightarrow> node option
    \<Rightarrow> world \<Rightarrow> (error + sample) \<times> world" where
  "Player_start buf when duration opt destination w =
     (let when1 = js_or when (Num (currentTime w));
          opts = from' (Some (case opt of None \<Rightarrow> Map.empty | Some h \<Rightarrow> h))
                   (Some (options w)) (Some DEFAULTS);
          dest = (case destination of None \<Rightarrow> output_node w | Some d \<Rightarrow> d)
      in and_then (Sample buf (Some dest) (Accessor opts) (onevent w) w) (\<lambda>s0 w1.
           (let s = s0\<lparr>s_id := Some (nextId w1), s_onended := Delete_tracked\<rparr>;
                w2 = w1\<lparr>nextId := Suc (nextId w1),
                        playing := AList.update (nextId w1) s (playing w1)\<rparr>
            in (Inr s, Sample_start s when1 duration w2))))"

text \<open>
  \<open>Player.prototype.stop = function (when, ids) {
     when = when || 0
     var tracked = this._playing
     function stopById (id) {
       var p = tracked[id]
       if (!p) return null
       p.stop()
       delete tracked[id]
       return id
     }
     if (!ids) return Object.keys(tracked).map(stopById)
     else if (Array.isArray(ids)) return ids.map(stopById)
     else return stopById(ids) }\<close>
  \<open>null\<close> is \<open>None\<close>. \<open>Object.keys\<close> lists the integer keys of an object in ascending
  order (as the decimal texts of the numbers, which name the same properties; the model
  keeps them as numbers). \<open>!ids\<close> holds when no ids are given, and also for the number 0;
  where it does not hold, \<open>ids\<close> is an array or a single id other than 0.
\<close>

datatype ids = NoIds | OneId nat | IdList "nat list"

datatype stopped = One "nat option" | Many "nat option list"

definition Object_keys :: "(nat \<times> sample) list \<Rightarrow> nat list" where
  "Object_keys tracked = sort (remdups (map fst tracked))"

definition stopById :: "nat \<Rightarrow> world \<Rightarrow> nat option \<times> world" where
  "stopById i w =
     (case map_of (playing w) i of
        None \<Rightarrow> (None, w)
      | Some p \<Rightarrow>
          (let w1 = Sample_stop p Undefined w
           in (Some i, w1\<lparr>playing := AList.delete i (playing w1)\<rparr>)))"

fun map_stopById :: "nat list \<Rightarrow> world \<Rightarrow> nat option list \<times> world" where
  "map_stopById [] w = ([], w)"
| "map_stopById (i # is) w =
     (let (r, w1) = stopById i w;
          (rs, w2) = map_stopById is w1
      in (r # rs, w2))"

fun not_ids :: "ids \<Rightarrow> bool" where
  "not_ids NoIds = True"
| "not_ids (OneId i) = (i = 0)"
| "not_ids (IdList xs) = False"

definition Player_stop :: "jsnum \<Rightarrow> ids \<Rightarrow> world \<Rightarrow> stopped \<times> world" where
  "Player_stop when ids w =
     (let when1 = js_or when (Num 0) in
      if not_ids ids then
        (let (rs, w1) = map_stopById (Object_keys (playing w)) w in (Many rs, w1))
      else
        (case ids of
           IdList xs \<Rightarrow> (let (rs, w1) = map_stopById xs w in (Many rs, w1))
         | OneId i \<Rightarrow> (let (r, w1) = stopById i w in (One r, w1))
         | NoIds \<Rightarrow> (let (rs, w1) = map_stopById (Object_keys (playing w)) w in (Many rs, w1))))"

section \<open>Runs of a player\<close>

text \<open>
  What can happen to a player, in any order: a call of \<open>start\<close>, a call of \<open>stop\<close>, the
  host telling a source that it has finished (which runs the handler of its sample),
  and the clock moving. \<open>run\<close> gives the samples that the calls of \<open>start\<close> returned, in
  order.
\<close>

datatype op =
    Start "buffer option" jsnum jsnum "hash option" "node option"
  | Stop jsnum ids
  | SourceEnded sample
  | Clock real

fun run :: "op list \<Rightarrow> world \<Rightarrow> sample list \<times> world" where
  "run [] w = ([], w)"
| "run (Start buf when duration opt destination # ops) w =
     (case Player_start buf when duration opt destination w of
        (Inl err, w1) \<Rightarrow> run ops w1
      | (Inr s, w1) \<Rightarrow> (let (ss, w2) = run ops w1 in (s # ss, w2)))"
| "run (Stop when ids # ops) w = run ops (snd (Player_stop when ids w))"
| "run (SourceEnded s # ops) w = run ops (source_onended s w)"
| "run (Clock t # ops) w = run ops (w\<lparr>currentTime := t\<rparr>)"

section \<open>Notions used in the statements\<close>

text \<open>The four nodes a sample owns.\<close>

definition nodes_of :: "sample \<Rightarrow> node list" where
  "nodes_of s = [s_source s, s_filter s, s_amp s, s_env s]"

text \<open>The actions that release a voice: disconnecting a node, and calling \<open>onended\<close>.\<close>

fun is_cleanup :: "action \<Rightarrow> bool" where
  "is_cleanup (Disconnect n) = True"
| "is_cleanup (Onended s) = True"
| "is_cleanup _ = False"

text \<open>A value that cannot be indexed: \<open>undefined\<close> or \<open>null\<close>.\<close>

definition no_array :: "optval \<Rightarrow> bool" where
  "no_array a = (a = VNum Undefined \<or> a = VNull)"

text \<open>The option names the constructor reads.\<close>

definition option_names :: "string list" where
  "option_names =
     [''adsr'', ''gain'', ''filter'', ''freq'', ''loop'', ''pitch'', ''loopStart'', ''loopEnd'']"

text \<open>
  What \<open>p.stop()\<close>, with no argument, does on the host in the state \<open>w\<close>: the \<open>stop\<close>
  event with no time, the release asked at the clock's current time, and the source
  stopped at the time the envelope returned.
\<close>

definition stop_now :: "sample \<Rightarrow> world \<Rightarrow> action list" where
  "stop_now p w =
     [Event ''stop'' p Undefined, EnvStop (s_env p) (Num (currentTime w)),
      SourceStop (s_source p) (env_stop w (s_env p) (Num (currentTime w)))]"

text \<open>
  An action that a \<open>stop()\<close> with no argument can make when the clock reads \<open>now\<close>: a
  \<open>stop\<close> event without a time, a release asked at \<open>now\<close>, or a stop of a source.
\<close>

definition stop_call :: "real \<Rightarrow> action \<Rightarrow> bool" where
  "stop_call now a =
     (case a of
        Event name p t \<Rightarrow> name = ''stop'' \<and> t = Undefined
      | EnvStop n t \<Rightarrow> t = Num now
      | SourceStop n t \<Rightarrow> True
      | _ \<Rightarrow> False)"

text \<open>Two states that differ at most in the trace and in the registry.\<close>

definition same_host :: "world \<Rightarrow> world \<Rightarrow> bool" where
  "same_host w w' =
     (currentTime w' = currentTime w \<and> env_stop w' = env_stop w \<and> fresh w' = fresh w \<and>
      options w' = options w \<and> nextId w' = nextId w \<and> onevent w' = onevent w \<and>
      output_node w' = output_node w)"

section \<open>Concrete states\<close>

text \<open>
  A host whose clock reads 5 and whose envelopes report the end of their release 0.3
  seconds after the time they are asked to stop at; a sample on four nodes of its own,
  as the constructor builds it in that host; a new player there; the player after one
  call and after two calls of \<open>start\<close>, and the voices those calls return; a short run.
\<close>

definition ex_world :: world where
  "ex_world =
     \<lparr>currentTime = 5, env_stop = (\<lambda>n t. js_add t (Num 0.3)), fresh = 0, trace = [],
      options = Map.empty, nextId = 1, playing = [], onevent = None, output_node = 0\<rparr>"

definition ex_sample :: sample where
  "ex_sample =
     \<lparr>s_id = None, s_event = None, s_amp = 0, s_env = 1, s_filter = 2, s_source = 3,
      s_onended = Prototype_onended\<rparr>"

definition ex_player :: world where
  "ex_player = Player AudioContext None ex_world"

definition ex_voice :: sample where
  "ex_voice =
     \<lparr>s_id = Some 1, s_event = None, s_amp = 1, s_env = 2, s_filter = 3, s_source = 4,
      s_onended = Delete_tracked\<rparr>"

definition ex_one :: world where
  "ex_one = snd (Player_start None Undefined Undefined None None ex_player)"

definition ex_voice2 :: sample where
  "ex_voice2 =
     \<lparr>s_id = Some 2, s_event = None, s_amp = 5, s_env = 6, s_filter = 7, s_source = 8,
      s_onended = Delete_tracked\<rparr>"

definition ex_two :: world where
  "ex_two = snd (Player_start None Undefined Undefined None None ex_one)"

definition ex_ops :: "op list" where
  "ex_ops =
     [Start None Undefined Undefined None None,
      Stop Undefined NoIds,
      Start (Some 1) (Num 6) (Num 2) (Some [''pitch'' \<mapsto> VNum (Num 12)]) None]"

section \<open>The constructor\<close>

lemma fresh_emit [simp]: "fresh (emit a w) = fresh w"
  by (simp add: emit_def)

lemma nextId_emit [simp]: "nextId (emit a w) = nextId w"
  by (simp add: emit_def)

lemma js_index_fails: "isl (js_index a i) = no_array a"
  by (cases "(a, i)" rule: js_index.cases) (simp_all add: no_array_def)

lemma from'_total: "\<not> isl (from' (Some a) (Some b) (Some c) n)"
  by (simp add: from'_def)

text \<open>
  Setting the four envelope parameters goes through unless the array is \<open>undefined\<close> or
  \<open>null\<close>.
\<close>

lemma set_params_ok:
  "\<not> no_array a \<Longrightarrow>
     fst (set_params e a ns w) = None \<and> fresh (snd (set_params e a ns w)) = fresh w"
proof (induction ns arbitrary: w)
  case Nil
  then show ?case by simp
next
  case (Cons p ns)
  obtain n i where p: "p = (n, i)" by (cases p)
  from Cons.prems have "\<not> isl (js_index a i)" by (simp add: js_index_fails)
  then obtain v where v: "js_index a i = Inr v" by (cases "js_index a i") simp_all
  show ?case using Cons.IH [OF Cons.prems, of "emit (Assign e n v) w"] by (simp add: p v)
qed

lemma set_params_nextId: "nextId (snd (set_params e a ns w)) = nextId w"
proof (induction ns arbitrary: w)
  case Nil
  show ?case by simp
next
  case (Cons p ns)
  obtain n i where p: "p = (n, i)" by (cases p)
  show ?case
  proof (cases "js_index a i")
    case (Inl err)
    with p show ?thesis by simp
  next
    case (Inr v)
    with p Cons.IH [of "emit (Assign e n v) w"] show ?thesis by simp
  qed
qed

lemma adsr_result:
  "adsr a w = (r, w') \<Longrightarrow>
     (no_array a \<longrightarrow> r = Inl TypeError) \<and>
     (\<not> no_array a \<longrightarrow> r = Inr (fresh w) \<and> fresh w' = Suc (fresh w))"
proof (cases "no_array a")
  case True
  assume "adsr a w = (r, w')"
  with True show ?thesis by (auto simp: adsr_def create_def no_array_def)
next
  case False
  assume a: "adsr a w = (r, w')"
  let ?w1 = "emit (CreateADSR (fresh w)) (w\<lparr>fresh := Suc (fresh w)\<rparr>)"
  let ?ns = "[(''attack'', 0), (''decay'', 1), (''sustain'', 2), (''release'', 3::nat)]"
  from set_params_ok [OF False, of "fresh w" ?ns ?w1]
  obtain w2 where s: "set_params (fresh w) a ?ns ?w1 = (None, w2)" and f: "fresh w2 = Suc (fresh w)"
    by (cases "set_params (fresh w) a ?ns ?w1") auto
  from a s f False show ?thesis by (auto simp: adsr_def create_def)
qed

lemma adsr_nextId: "nextId (snd (adsr a w)) = nextId w"
proof -
  let ?w1 = "emit (CreateADSR (fresh w)) (w\<lparr>fresh := Suc (fresh w)\<rparr>)"
  let ?ns = "[(''attack'', 0), (''decay'', 1), (''sustain'', 2), (''release'', 3::nat)]"
  from set_params_nextId [of "fresh w" a ?ns ?w1]
  show ?thesis
    by (cases "set_params (fresh w) a ?ns ?w1") (auto simp: adsr_def create_def split: option.splits)
qed

text \<open>Each block of the constructor: when it throws, and which handle it returns.\<close>

lemma make_amp_result:
  "make_amp d w = (amp, w') \<Longrightarrow> amp = fresh w \<and> fresh w' = Suc (fresh w)"
  by (auto simp: make_amp_def create_def Let_def)

lemma make_env_result:
  "make_env opts amp w = (r, w') \<Longrightarrow>
     (isl r = (isl (opts ''adsr'') \<or> (\<exists>a. opts ''adsr'' = Inr a \<and> no_array a) \<or>
        isl (opts ''gain''))) \<and>
     (\<forall>e. r = Inr e \<longrightarrow> e = fresh w \<and> fresh w' = Suc (fresh w))"
  apply (cases "opts ''adsr''"; cases "opts ''gain''")
     apply (auto simp: make_env_def and_then_def split: prod.splits sum.splits dest!: adsr_result)
  done

lemma make_filter_result:
  "make_filter opts amp w = (r, w') \<Longrightarrow>
     (isl r = (isl (opts ''filter'') \<or> isl (opts ''freq''))) \<and>
     (\<forall>e. r = Inr e \<longrightarrow> e = fresh w \<and> fresh w' = Suc (fresh w))"
  by (cases "opts ''filter''"; cases "opts ''freq''")
    (auto simp: make_filter_def and_then_def create_def)

lemma make_source_result:
  "make_source opts buf flt w = (r, w') \<Longrightarrow>
     (isl r = (isl (opts ''loop'') \<or> isl (opts ''pitch'') \<or> isl (opts ''loopStart'') \<or>
        isl (opts ''loopEnd''))) \<and>
     (\<forall>e. r = Inr e \<longrightarrow> e = fresh w \<and> fresh w' = Suc (fresh w))"
  by (cases "opts ''loop''"; cases "opts ''pitch''"; cases "opts ''loopStart''"; cases "opts ''loopEnd''")
    (auto simp: make_source_def and_then_def create_def)

lemma make_source_rate:
  "make_source opts buf flt w = (Inr src, w') \<Longrightarrow> opts ''pitch'' = Inr p \<Longrightarrow>
     Assign src ''playbackRate'' (VNum (centsToRate (js_mul (toNumber p) (Num 100)))) \<in> set (trace w')"
  by (cases "opts ''loop''"; cases "opts ''loopStart''"; cases "opts ''loopEnd''")
    (auto simp: make_source_def and_then_def create_def emit_def)

lemma make_source_buffer:
  "make_source opts buf flt w = (Inr src, w') \<Longrightarrow> AssignBuffer src buf \<in> set (trace w')"
  by (cases "opts ''loop''"; cases "opts ''pitch''"; cases "opts ''loopStart''"; cases "opts ''loopEnd''")
    (auto simp: make_source_def and_then_def create_def emit_def)

text \<open>
  With a destination, the constructor of the model throws exactly when reading an
  option throws or the \<open>adsr\<close> option cannot be indexed; otherwise it returns a sample on
  four new nodes.
\<close>

lemma Sample_result:
  assumes "Sample buf (Some d) opt ev w = (r, w')"
  shows "(isl r = ((\<exists>n \<in> set option_names. isl (accessor opt n)) \<or>
            (\<exists>a. accessor opt ''adsr'' = Inr a \<and> no_array a))) \<and>
    (\<forall>s. r = Inr s \<longrightarrow>
       s = \<lparr>s_id = None, s_event = ev, s_amp = fresh w, s_env = fresh w + 1,
            s_filter = fresh w + 2, s_source = fresh w + 3, s_onended = Prototype_onended\<rparr>)"
proof -
  let ?o = "accessor opt"
  obtain amp w1 where 1: "make_amp d w = (amp, w1)" by (cases "make_amp d w")
  obtain r2 w2 where 2: "make_env ?o amp w1 = (r2, w2)" by (cases "make_env ?o amp w1")
  note a1 = make_amp_result [OF 1] and a2 = make_env_result [OF 2]
  show ?thesis
  proof (cases r2)
    case (Inl e)
    with assms 1 2 a2 show ?thesis
      by (auto simp: Sample_def and_then_def option_names_def)
  next
    case r2: (Inr env)
    obtain r3 w3 where 3: "make_filter ?o amp w2 = (r3, w3)" by (cases "make_filter ?o amp w2")
    note a3 = make_filter_result [OF 3]
    show ?thesis
    proof (cases r3)
      case (Inl e)
      with assms 1 2 3 a2 a3 r2 show ?thesis
        by (auto simp: Sample_def and_then_def option_names_def)
    next
      case r3: (Inr flt)
      obtain r4 w4 where 4: "make_source ?o buf flt w3 = (r4, w4)"
        by (cases "make_source ?o buf flt w3")
      note a4 = make_source_result [OF 4]
      from assms 1 2 3 4 a1 a2 a3 a4 r2 r3 show ?thesis
        by (cases r4) (auto simp: Sample_def and_then_def option_names_def)
    qed
  qed
qed

lemma Sample_rate:
  assumes "Sample buf dest opt ev w = (Inr s, w')" and "accessor opt ''pitch'' = Inr p"
  shows "Assign (s_source s) ''playbackRate'' (VNum (centsToRate (js_mul (toNumber p) (Num 100))))
           \<in> set (trace w')"
proof -
  from assms(1) obtain d where d: "dest = Some d"
    by (cases dest) (simp_all add: Sample_def)
  let ?o = "accessor opt"
  obtain amp w1 where 1: "make_amp d w = (amp, w1)" by (cases "make_amp d w")
  obtain r2 w2 where 2: "make_env ?o amp w1 = (r2, w2)" by (cases "make_env ?o amp w1")
  from assms(1) d 1 2 obtain env where r2: "r2 = Inr env"
    by (cases r2) (simp_all add: Sample_def and_then_def)
  obtain r3 w3 where 3: "make_filter ?o amp w2 = (r3, w3)" by (cases "make_filter ?o amp w2")
  from assms(1) d 1 2 3 r2 obtain flt where r3: "r3 = Inr flt"
    by (cases r3) (simp_all add: Sample_def and_then_def)
  obtain r4 w4 where 4: "make_source ?o buf flt w3 = (r4, w4)" by (cases "make_source ?o buf flt w3")
  from assms(1) d 1 2 3 4 r2 r3 have "r4 = Inr (s_source s) \<and> w4 = w'"
    by (cases r4) (auto simp: Sample_def and_then_def)
  with 4 assms(2) show ?thesis by (auto dest: make_source_rate)
qed

text \<open>The buffer is assigned to the source of the sample as it was given.\<close>

lemma Sample_buffer:
  assumes "Sample buf dest opt ev w = (Inr s, w')"
  shows "AssignBuffer (s_source s) buf \<in> set (trace w')"
proof -
  from assms obtain d where d: "dest = Some d"
    by (cases dest) (simp_all add: Sample_def)
  let ?o = "accessor opt"
  obtain amp w1 where 1: "make_amp d w = (amp, w1)" by (cases "make_amp d w")
  obtain r2 w2 where 2: "make_env ?o amp w1 = (r2, w2)" by (cases "make_env ?o amp w1")
  from assms d 1 2 obtain env where r2: "r2 = Inr env"
    by (cases r2) (simp_all add: Sample_def and_then_def)
  obtain r3 w3 where 3: "make_filter ?o amp w2 = (r3, w3)" by (cases "make_filter ?o amp w2")
  from assms d 1 2 3 r2 obtain flt where r3: "r3 = Inr flt"
    by (cases r3) (simp_all add: Sample_def and_then_def)
  obtain r4 w4 where 4: "make_source ?o buf flt w3 = (r4, w4)" by (cases "make_source ?o buf flt w3")
  from assms d 1 2 3 4 r2 r3 have "r4 = Inr (s_source s) \<and> w4 = w'"
    by (cases r4) (auto simp: Sample_def and_then_def)
  with 4 show ?thesis by (auto dest: make_source_buffer)
qed

text \<open>
  Whether the constructor throws, and the sample it returns, do not depend on the
  buffer.
\<close>

lemma Sample_any_buffer:
  "fst (Sample buf (Some d) opt ev w) = fst (Sample buf' (Some d) opt ev w)"
proof -
  obtain r v where 1: "Sample buf (Some d) opt ev w = (r, v)"
    by (cases "Sample buf (Some d) opt ev w")
  obtain r' v' where 2: "Sample buf' (Some d) opt ev w = (r', v')"
    by (cases "Sample buf' (Some d) opt ev w")
  have e: "x = y" for x y :: error
    by (cases x; cases y) simp
  from Sample_result [OF 1] Sample_result [OF 2] have "r = r'"
    by (cases r; cases r') (auto intro: e)
  with 1 2 show ?thesis by simp
qed

text \<open>The constructor leaves the id counter alone.\<close>

lemma and_then_nextId:
  assumes "\<And>v w'. nextId (snd (k v w')) = nextId w'"
  shows "nextId (snd (and_then m k)) = nextId (snd m)"
proof (cases m)
  case (Pair r w')
  with assms [of _ w'] show ?thesis by (cases r) (simp_all add: and_then_def)
qed

lemma make_amp_nextId: "nextId (snd (make_amp d w)) = nextId w"
  by (simp add: make_amp_def create_def Let_def)

lemma make_env_nextId: "nextId (snd (make_env opts amp w)) = nextId w"
  by (simp add: make_env_def and_then_nextId adsr_nextId)

lemma make_filter_nextId: "nextId (snd (make_filter opts amp w)) = nextId w"
  by (simp add: make_filter_def and_then_nextId create_def)

lemma make_source_nextId: "nextId (snd (make_source opts buf flt w)) = nextId w"
  by (simp add: make_source_def and_then_nextId create_def)

lemma Sample_nextId: "nextId (snd (Sample buf dest opt ev w)) = nextId w"
  by (cases dest)
    (simp_all add: Sample_def Let_def case_prod_beta and_then_nextId make_amp_nextId make_env_nextId
      make_filter_nextId make_source_nextId)

section \<open>Starting a voice on a player\<close>

lemma Sample_start_nextId: "nextId (Sample_start s when duration w) = nextId w"
  by (simp add: Sample_start_def Sample_stop_def emit_def Let_def)

text \<open>
  A call of \<open>start\<close> that returns gives the voice the next id and moves the counter by
  one; a call that throws leaves the counter as it is.
\<close>

lemma Player_start_nextId:
  "Player_start buf when duration hopt dest w = (r, w') \<Longrightarrow>
     (isl r \<longrightarrow> nextId w' = nextId w) \<and>
     (\<forall>s. r = Inr s \<longrightarrow> s_id s = Some (nextId w) \<and> nextId w' = Suc (nextId w))"
proof -
  assume a: "Player_start buf when duration hopt dest w = (r, w')"
  let ?opts = "from' (Some (case hopt of None \<Rightarrow> Map.empty | Some h \<Rightarrow> h)) (Some (options w))
    (Some DEFAULTS)"
  let ?d = "case dest of None \<Rightarrow> output_node w | Some d \<Rightarrow> d"
  obtain r0 v where c: "Sample buf (Some ?d) (Accessor ?opts) (onevent w) w = (r0, v)"
    by (cases "Sample buf (Some ?d) (Accessor ?opts) (onevent w) w")
  from Sample_nextId [of buf "Some ?d" "Accessor ?opts" "onevent w" w] c
  have n: "nextId v = nextId w" by simp
  from a c n show ?thesis
    by (cases r0) (auto simp: Player_start_def and_then_def Let_def Sample_start_nextId)
qed

text \<open>
  In the model, a call of \<open>start\<close> throws exactly when the \<open>adsr\<close> option resolves to a
  value that cannot be indexed.
\<close>

lemma Player_start_fails:
  "isl (fst (Player_start buf when duration hopt dest w)) =
     (\<exists>a. from' (Some (case hopt of None \<Rightarrow> Map.empty | Some h \<Rightarrow> h)) (Some (options w))
        (Some DEFAULTS) ''adsr'' = Inr a \<and> no_array a)"
proof -
  let ?opts = "from' (Some (case hopt of None \<Rightarrow> Map.empty | Some h \<Rightarrow> h)) (Some (options w))
    (Some DEFAULTS)"
  let ?d = "case dest of None \<Rightarrow> output_node w | Some d \<Rightarrow> d"
  obtain r v where c: "Sample buf (Some ?d) (Accessor ?opts) (onevent w) w = (r, v)"
    by (cases "Sample buf (Some ?d) (Accessor ?opts) (onevent w) w")
  from Sample_result [OF c] have "isl r = (\<exists>a. ?opts ''adsr'' = Inr a \<and> no_array a)"
    by (simp add: accessor_def from'_total)
  moreover from c have "isl (fst (Player_start buf when duration hopt dest w)) = isl r"
    by (cases r) (simp_all add: Player_start_def and_then_def Let_def)
  ultimately show ?thesis by simp
qed

lemma Player_start_nodes:
  assumes "Player_start buf when duration hopt dest w = (Inr s, w')"
  shows "distinct (nodes_of s)"
proof -
  let ?opts = "from' (Some (case hopt of None \<Rightarrow> Map.empty | Some h \<Rightarrow> h)) (Some (options w))
    (Some DEFAULTS)"
  let ?d = "case dest of None \<Rightarrow> output_node w | Some d \<Rightarrow> d"
  obtain r v where c: "Sample buf (Some ?d) (Accessor ?opts) (onevent w) w = (r, v)"
    by (cases "Sample buf (Some ?d) (Accessor ?opts) (onevent w) w")
  from assms c obtain s0 where "r = Inr s0"
    and "s = s0\<lparr>s_id := Some (nextId v), s_onended := Delete_tracked\<rparr>"
    by (cases r) (auto simp: Player_start_def and_then_def Let_def)
  with Sample_result [OF c] show ?thesis
    by (auto simp: nodes_of_def)
qed

section \<open>The concrete states, evaluated\<close>

lemmas eval_defs = Sample_def make_amp_def make_env_def make_filter_def make_source_def adsr_def
  and_then_def accessor_def from'_def js_get_def DEFAULTS_def create_def emit_def
  Player_def Player_start_def Sample_start_def Sample_stop_def js_or_def Let_def

lemma ex_sample_result:
  "fst (Sample None (Some 0) (Hash (Some DEFAULTS)) None ex_world) = Inr ex_sample"
  by (simp add: ex_world_def ex_sample_def eval_defs)

lemma ex_sample_built:
  "Sample None (Some 0) (Hash (Some DEFAULTS)) None ex_world =
     (Inr ex_sample, snd (Sample None (Some 0) (Hash (Some DEFAULTS)) None ex_world))"
  using ex_sample_result by (simp add: prod_eq_iff)

lemma ex_player_playing: "playing ex_player = []"
  by (simp add: ex_player_def Player_def ex_world_def create_def emit_def Let_def)

lemma ex_player_start:
  "Player_start None Undefined Undefined None None ex_player = (Inr ex_voice, ex_one)"
proof -
  have "fst (Player_start None Undefined Undefined None None ex_player) = Inr ex_voice"
    by (simp add: ex_player_def ex_world_def ex_voice_def eval_defs)
  then show ?thesis by (simp add: ex_one_def prod_eq_iff)
qed

lemma ex_one_fields:
  "playing ex_one = [(1, ex_voice)] \<and> nextId ex_one = 2 \<and> currentTime ex_one = 5 \<and>
   env_stop ex_one = (\<lambda>n t. js_add t (Num 0.3)) \<and> fresh ex_one = 5 \<and> output_node ex_one = 0 \<and>
   options ex_one = Map.empty \<and> onevent ex_one = None"
  by (simp add: ex_one_def ex_player_def ex_world_def ex_voice_def eval_defs)

lemma ex_two_fields:
  "playing ex_two = [(1, ex_voice), (2, ex_voice2)] \<and> nextId ex_two = 3 \<and> currentTime ex_two = 5 \<and>
   env_stop ex_two = (\<lambda>n t. js_add t (Num 0.3))"
  by (simp add: ex_two_def ex_one_fields ex_voice2_def eval_defs)

section \<open>Stopping voices on a player\<close>

lemma Sample_stop_Undefined:
  "Sample_stop p Undefined w = w\<lparr>trace := trace w @ stop_now p w\<rparr>"
  by (simp add: Sample_stop_def emit_def js_or_def Let_def stop_now_def)

lemma stopById_absent:
  "map_of (playing w) i = None \<Longrightarrow> stopById i w = (None, w)"
  by (simp add: stopById_def)

lemma stopById_present:
  "map_of (playing w) i = Some p \<Longrightarrow>
     stopById i w = (Some i, w\<lparr>trace := trace w @ stop_now p w, playing := AList.delete i (playing w)\<rparr>)"
  by (simp add: stopById_def Sample_stop_Undefined)

lemma map_stopById_Cons:
  "map_stopById (i # ks) w =
     (fst (stopById i w) # fst (map_stopById ks (snd (stopById i w))),
      snd (map_stopById ks (snd (stopById i w))))"
  by (simp add: case_prod_beta)

declare map_stopById.simps(2) [simp del]

lemma keys_delete: "fst ` set (AList.delete k al) = fst ` set al - {k}"
  by (force simp: AList.delete_eq)

lemma stopById_same_host: "same_host w (snd (stopById i w))"
  by (cases "map_of (playing w) i") (simp_all add: stopById_absent stopById_present same_host_def)

lemma map_stopById_same_host: "same_host w (snd (map_stopById ks w))"
proof (induction ks arbitrary: w)
  case Nil
  show ?case by (simp add: same_host_def)
next
  case (Cons k ks)
  from stopById_same_host [of w k] Cons.IH [of "snd (stopById k w)"] show ?case
    by (simp add: map_stopById_Cons same_host_def)
qed

lemma stopById_playing: "playing (snd (stopById i w)) = AList.delete i (playing w)"
proof (cases "map_of (playing w) i")
  case None
  then have "i \<notin> fst ` set (playing w)" by (simp add: map_of_eq_None_iff)
  with None show ?thesis by (simp add: stopById_absent)
next
  case (Some p)
  then show ?thesis by (simp add: stopById_present)
qed

lemma map_stopById_playing:
  "playing (snd (map_stopById ks w)) = filter (\<lambda>(k, v). k \<notin> set ks) (playing w)"
proof (induction ks arbitrary: w)
  case Nil
  show ?case by simp
next
  case (Cons k ks)
  have "filter (\<lambda>(k', v). k' \<notin> set ks) (AList.delete k (playing w)) =
        filter (\<lambda>(k', v). k' \<notin> set (k # ks)) (playing w)"
    by (auto simp: AList.delete_eq intro: filter_cong)
  with Cons.IH [of "snd (stopById k w)"] show ?case
    by (simp add: map_stopById_Cons stopById_playing)
qed

lemma map_stopById_length: "length (fst (map_stopById ks w)) = length ks"
  by (induction ks arbitrary: w) (simp_all add: map_stopById_Cons)

lemma map_stopById_present:
  "distinct ks \<Longrightarrow> set ks \<subseteq> fst ` set (playing w) \<Longrightarrow> fst (map_stopById ks w) = map Some ks"
proof (induction ks arbitrary: w)
  case Nil
  show ?case by simp
next
  case (Cons k ks)
  from Cons.prems obtain p where p: "map_of (playing w) k = Some p"
    by (cases "map_of (playing w) k") (auto simp: map_of_eq_None_iff)
  from Cons.prems have "set ks \<subseteq> fst ` set (playing (snd (stopById k w)))"
    by (auto simp: stopById_playing keys_delete)
  with Cons.IH [of "snd (stopById k w)"] Cons.prems
  have "fst (map_stopById ks (snd (stopById k w))) = map Some ks" by simp
  then show ?case by (simp add: map_stopById_Cons stopById_present [OF p])
qed

lemma map_stopById_absent:
  "set ks \<inter> fst ` set (playing w) = {} \<Longrightarrow> map_stopById ks w = (map (\<lambda>k. None) ks, w)"
proof (induction ks)
  case Nil
  show ?case by simp
next
  case (Cons k ks)
  then have "map_of (playing w) k = None" by (simp add: map_of_eq_None_iff)
  with Cons show ?case by (simp add: map_stopById_Cons stopById_absent)
qed

lemma map_stopById_null:
  "j < length ks \<Longrightarrow> map_of (playing w) (ks ! j) = None \<Longrightarrow> fst (map_stopById ks w) ! j = None"
proof (induction ks arbitrary: w j)
  case Nil
  then show ?case by simp
next
  case (Cons k ks)
  show ?case
  proof (cases j)
    case 0
    with Cons.prems show ?thesis by (simp add: map_stopById_Cons stopById_absent)
  next
    case (Suc j')
    with Cons.prems have "map_of (playing (snd (stopById k w))) (ks ! j') = None"
      by (simp add: stopById_playing AList.delete_conv')
    with Cons.IH [of j' "snd (stopById k w)"] Cons.prems Suc show ?thesis
      by (simp add: map_stopById_Cons)
  qed
qed

lemma stopById_trace:
  "\<exists>ys. trace (snd (stopById i w)) = trace w @ ys \<and> list_all (stop_call (currentTime w)) ys"
proof (cases "map_of (playing w) i")
  case None
  then show ?thesis by (simp add: stopById_absent)
next
  case (Some p)
  then show ?thesis by (simp add: stopById_present stop_now_def stop_call_def)
qed

lemma map_stopById_trace:
  "\<exists>ys. trace (snd (map_stopById ks w)) = trace w @ ys \<and> list_all (stop_call (currentTime w)) ys"
proof (induction ks arbitrary: w)
  case Nil
  show ?case by simp
next
  case (Cons k ks)
  let ?w1 = "snd (stopById k w)"
  from stopById_trace [of k w]
  obtain ys where ys: "trace ?w1 = trace w @ ys" "list_all (stop_call (currentTime w)) ys" by auto
  from stopById_same_host [of w k] have t: "currentTime ?w1 = currentTime w"
    by (simp add: same_host_def)
  from Cons.IH [of ?w1] t
  obtain zs where zs: "trace (snd (map_stopById ks ?w1)) = trace ?w1 @ zs"
    "list_all (stop_call (currentTime w)) zs" by auto
  from ys zs have "trace (snd (map_stopById ks ?w1)) = trace w @ (ys @ zs) \<and>
     list_all (stop_call (currentTime w)) (ys @ zs)"
    by simp
  then show ?case unfolding map_stopById_Cons snd_conv by blast
qed

lemma map_stopById_stops:
  "k \<in> set ks \<Longrightarrow> map_of (playing w) k = Some p \<Longrightarrow>
     set (stop_now p w) \<subseteq> set (trace (snd (map_stopById ks w)))"
proof (induction ks arbitrary: w)
  case Nil
  then show ?case by simp
next
  case (Cons i ks)
  let ?w1 = "snd (stopById i w)"
  from map_stopById_trace [of ks ?w1]
  obtain zs where zs: "trace (snd (map_stopById ks ?w1)) = trace ?w1 @ zs" by auto
  show ?case
  proof (cases "i = k")
    case True
    with Cons.prems have "trace ?w1 = trace w @ stop_now p w" by (simp add: stopById_present)
    with zs show ?thesis unfolding map_stopById_Cons snd_conv by auto
  next
    case False
    with Cons.prems have k: "k \<in> set ks" by simp
    from False Cons.prems have p: "map_of (playing ?w1) k = Some p"
      by (simp add: stopById_playing)
    from stopById_same_host [of w i] have "stop_now p ?w1 = stop_now p w"
      by (simp add: stop_now_def same_host_def)
    with Cons.IH [OF k p] show ?thesis unfolding map_stopById_Cons snd_conv by simp
  qed
qed

lemma Object_keys_set: "set (Object_keys al) = fst ` set al"
  by (simp add: Object_keys_def)

lemma Object_keys_distinct: "distinct (Object_keys al)"
  by (simp add: Object_keys_def)

lemma Object_keys_card: "length (Object_keys al) = card (dom (map_of al))"
  by (simp add: Object_keys_def dom_map_of_conv_image_fst length_remdups_card_conv)

lemma stop_all_result:
  "fst (map_stopById (Object_keys (playing w)) w) = map Some (Object_keys (playing w)) \<and>
   playing (snd (map_stopById (Object_keys (playing w)) w)) = []"
proof -
  let ?ks = "Object_keys (playing w)"
  have 1: "fst (map_stopById ?ks w) = map Some ?ks"
    by (rule map_stopById_present) (simp_all add: Object_keys_distinct Object_keys_set)
  have "filter (\<lambda>(k, v). k \<notin> set ?ks) (playing w) = []"
    by (auto simp: Object_keys_set filter_empty_conv image_iff)
  then have "playing (snd (map_stopById ?ks w)) = []"
    by (simp add: map_stopById_playing)
  with 1 show ?thesis by simp
qed

lemma Player_stop_same_host: "same_host w (snd (Player_stop when ids w))"
  using map_stopById_same_host [of w "Object_keys (playing w)"] stopById_same_host [of w]
    map_stopById_same_host [of w]
  by (cases ids) (simp_all add: Player_stop_def case_prod_beta)

section \<open>Runs\<close>

lemma Player_stop_nextId: "nextId (snd (Player_stop when ids w)) = nextId w"
  using Player_stop_same_host [of w "when" ids] by (simp add: same_host_def)

lemma source_onended_nextId: "nextId (source_onended s w) = nextId w"
  by (simp add: source_onended_def run_callback_def Let_def split: callback.splits option.splits)

lemma Player_nextId: "nextId (Player ac opt w) = 1"
  by (simp add: Player_def create_def emit_def Let_def split: ac_arg.splits)

lemma run_Start_returns:
  "Player_start buf t d hopt dest w = (Inr s, w1) \<Longrightarrow>
     run (Start buf t d hopt dest # ops) w = (s # fst (run ops w1), snd (run ops w1))"
  by (simp add: case_prod_beta)

text \<open>
  From any state, the ids of the voices that a run starts are the consecutive numbers
  from the counter on, and the counter ends that many higher.
\<close>

lemma run_ids:
  "map s_id (fst (run ops w)) = map Some [nextId w ..< nextId w + length (fst (run ops w))] \<and>
   nextId (snd (run ops w)) = nextId w + length (fst (run ops w))"
proof (induction ops arbitrary: w)
  case Nil
  show ?case by simp
next
  case (Cons x ops)
  show ?case
  proof (cases x)
    case (Start buf t d hopt dest)
    obtain r w1 where 1: "Player_start buf t d hopt dest w = (r, w1)"
      by (cases "Player_start buf t d hopt dest w")
    note n = Player_start_nextId [OF 1]
    show ?thesis
    proof (cases r)
      case (Inl e)
      with Start 1 n Cons.IH [of w1] show ?thesis by simp
    next
      case (Inr s)
      with n have s: "s_id s = Some (nextId w)" and w1: "nextId w1 = Suc (nextId w)" by simp_all
      from Start 1 Inr have r: "run (x # ops) w = (s # fst (run ops w1), snd (run ops w1))"
        by (simp add: case_prod_beta)
      let ?n = "length (fst (run ops w1))"
      have "[nextId w ..< nextId w + Suc ?n] = nextId w # [Suc (nextId w) ..< Suc (nextId w) + ?n]"
        by (simp add: upt_conv_Cons del: upt_Suc)
      with Cons.IH [of w1] s w1 show ?thesis
        by (simp add: r del: upt_Suc)
    qed
  next
    case (Stop t ids)
    with Cons.IH [of "snd (Player_stop t ids w)"] show ?thesis by (simp add: Player_stop_nextId)
  next
    case (SourceEnded s)
    with Cons.IH [of "source_onended s w"] show ?thesis by (simp add: source_onended_nextId)
  next
    case (Clock t)
    with Cons.IH [of "w\<lparr>currentTime := t\<rparr>"] show ?thesis by simp
  qed
qed

lemma ex_ops_length: "length (fst (run ex_ops ex_player)) = 2"
proof -
  let ?w2 = "snd (Player_stop Undefined NoIds ex_one)"
  let ?last = "Start (Some 1) (Num 6) (Num 2) (Some [''pitch'' \<mapsto> VNum (Num 12)]) None"
  let ?st = "Player_start (Some 1) (Num 6) (Num 2) (Some [''pitch'' \<mapsto> VNum (Num 12)]) None ?w2"
  from Player_stop_same_host [of ex_one Undefined NoIds] have "options ?w2 = Map.empty"
    by (simp add: same_host_def ex_one_fields)
  then have "\<not> isl (fst ?st)"
    by (simp add: Player_start_fails from'_def js_get_def DEFAULTS_def no_array_def)
  then obtain s w3 where 3: "?st = (Inr s, w3)"
    by (cases ?st; cases "fst ?st") auto
  have "run ex_ops ex_player = (ex_voice # fst (run [?last] ?w2), snd (run [?last] ?w2))"
    unfolding ex_ops_def by (simp only: run_Start_returns [OF ex_player_start] run.simps(3))
  also have "run [?last] ?w2 = ([s], w3)"
    by (simp only: run_Start_returns [OF 3] run.simps(1) fst_conv snd_conv)
  finally show ?thesis by simp
qed

section \<open>The option resolver\<close>

text \<open>
  C9. For every option name and every three hashes, the accessor made by \<open>from\<close> returns
  the value of the call-time options when the name is present there, else the value of
  the player's defaults when the name is present there, else the value of the global
  defaults (\<open>undefined\<close> when the name is in none of the three). The accessor only reads
  the hashes: it returns a value and no hash, so the three inputs are as they were.
\<close>

theorem from_resolution:
  "(a name = Some v \<longrightarrow> from' (Some a) (Some b) (Some c) name = Inr v) \<and>
   (a name = None \<longrightarrow> b name = Some v \<longrightarrow> from' (Some a) (Some b) (Some c) name = Inr v) \<and>
   (a name = None \<longrightarrow> b name = None \<longrightarrow> c name = Some v \<longrightarrow>
      from' (Some a) (Some b) (Some c) name = Inr v) \<and>
   (a name = None \<longrightarrow> b name = None \<longrightarrow> c name = None \<longrightarrow>
      from' (Some a) (Some b) (Some c) name = Inr (VNum Undefined))"
  by (auto simp: from'_def js_get_def dom_def)

theorem from_resolution_witness:
  "from' (Some [''pitch'' \<mapsto> VNum (Num 7)]) (Some [''pitch'' \<mapsto> VNum (Num 3)]) (Some DEFAULTS) ''pitch''
     = Inr (VNum (Num 7)) \<and>
   from' (Some Map.empty) (Some [''pitch'' \<mapsto> VNum (Num 3)]) (Some DEFAULTS) ''pitch''
     = Inr (VNum (Num 3)) \<and>
   from' (Some Map.empty) (Some Map.empty) (Some DEFAULTS) ''pitch'' = Inr (VNum (Num 0)) \<and>
   from' (Some Map.empty) (Some Map.empty) (Some DEFAULTS) ''volume'' = Inr (VNum Undefined)"
  using from_resolution [of "[''pitch'' \<mapsto> VNum (Num 7)]" "''pitch''" "VNum (Num 7)"
      "[''pitch'' \<mapsto> VNum (Num 3)]" DEFAULTS]
    from_resolution [of Map.empty "''pitch''" "VNum (Num 3)" "[''pitch'' \<mapsto> VNum (Num 3)]" DEFAULTS]
    from_resolution [of Map.empty "''pitch''" "VNum (Num 0)" Map.empty DEFAULTS]
    from_resolution [of Map.empty "''volume''" "VNum Undefined" Map.empty DEFAULTS]
  by (simp add: DEFAULTS_def)

section \<open>Pitch and playback rate\<close>

text \<open>
  C10. The conversion from a pitch \<open>p\<close> in semitones to a playback rate, as the
  constructor computes it, \<open>centsToRate(p * 100)\<close>, is \<open>2\<close> to the power \<open>p * 100 / 1200\<close>,
  that is \<open>2\<close> to the power \<open>p / 12\<close>, and 1 for the pitch 0; it is a function of the
  pitch alone. That rate is what a constructed sample has had assigned to its source.
  (Numbers are read as reals.)
\<close>

theorem pitch_to_rate:
  "centsToRate (js_mul (toNumber (VNum (Num p))) (Num 100)) = Num (2 powr (p * 100 / 1200)) \<and>
   centsToRate (js_mul (toNumber (VNum (Num p))) (Num 100)) = Num (2 powr (p / 12)) \<and>
   centsToRate (js_mul (toNumber (VNum (Num 0))) (Num 100)) = Num 1 \<and>
   (Sample buf dest opt ev w = (Inr s, w') \<longrightarrow> accessor opt ''pitch'' = Inr (VNum (Num p)) \<longrightarrow>
      Assign (s_source s) ''playbackRate'' (VNum (Num (2 powr (p / 12)))) \<in> set (trace w'))"
proof -
  have r: "centsToRate (js_mul (toNumber (VNum (Num q))) (Num 100)) = Num (2 powr (q / 12))" for q
    by (simp add: centsToRate_def)
  have "Sample buf dest opt ev w = (Inr s, w') \<longrightarrow> accessor opt ''pitch'' = Inr (VNum (Num p)) \<longrightarrow>
      Assign (s_source s) ''playbackRate'' (VNum (Num (2 powr (p / 12)))) \<in> set (trace w')"
    using Sample_rate [of buf dest opt ev w s w' "VNum (Num p)"] by (simp only: r) blast
  moreover have "centsToRate (js_mul (toNumber (VNum (Num p))) (Num 100)) = Num (2 powr (p * 100 / 1200))"
    by (simp add: centsToRate_def)
  ultimately show ?thesis using r [of p] r [of 0] by simp
qed

theorem pitch_to_rate_witness:
  "Assign 3 ''playbackRate'' (VNum (Num 1))
     \<in> set (trace (snd (Sample None (Some 0) (Hash (Some DEFAULTS)) None ex_world)))"
  using pitch_to_rate [of 0 None "Some 0" "Hash (Some DEFAULTS)" None ex_world ex_sample
      "snd (Sample None (Some 0) (Hash (Some DEFAULTS)) None ex_world)"] ex_sample_built
  by (simp add: accessor_def from'_def js_get_def DEFAULTS_def ex_sample_def)

section \<open>Constructing a voice\<close>

text \<open>
  C8, as the claim states it, fails for the buffer: nothing in the constructor looks at
  it. With the buffer missing, a destination and the default options, the constructor
  returns a sample.
\<close>

theorem Sample_missing_buffer_counterexample:
  "\<not> isl (fst (Sample None (Some 0) (Hash (Some DEFAULTS)) None ex_world))"
  by (simp add: ex_sample_result)

text \<open>
  C8, amended. Constructing a sample with the destination missing throws at once,
  before any node is made, whatever the other arguments are. A missing buffer is not
  checked: whether the constructor throws, and the sample it returns, are the same for
  every buffer, missing or not, and the constructor assigns the buffer to the source as
  it was given.
\<close>

theorem Sample_missing_arguments:
  "Sample buf None opt ev w = (Inl TypeError, w) \<and>
   fst (Sample None (Some d) opt ev w) = fst (Sample buf (Some d) opt ev w) \<and>
   (Sample buf (Some d) opt ev w = (Inr s, w') \<longrightarrow>
      AssignBuffer (s_source s) buf \<in> set (trace w'))"
proof -
  have 1: "Sample buf None opt ev w = (Inl TypeError, w)"
    by (simp add: Sample_def)
  have 2: "fst (Sample None (Some d) opt ev w) = fst (Sample buf (Some d) opt ev w)"
    by (rule Sample_any_buffer)
  have 3: "Sample buf (Some d) opt ev w = (Inr s, w') \<longrightarrow>
      AssignBuffer (s_source s) buf \<in> set (trace w')"
    by (auto dest: Sample_buffer)
  from 1 2 3 show ?thesis by blast
qed

theorem Sample_missing_arguments_witness:
  "Sample (Some 1) None (Hash (Some DEFAULTS)) None ex_world = (Inl TypeError, ex_world) \<and>
   fst (Sample (Some 1) (Some 0) (Hash (Some DEFAULTS)) None ex_world) = Inr ex_sample \<and>
   AssignBuffer 3 None
     \<in> set (trace (snd (Sample None (Some 0) (Hash (Some DEFAULTS)) None ex_world)))"
  using Sample_missing_arguments [of "Some 1" "Hash (Some DEFAULTS)" None ex_world 0 ex_sample
      "snd (Sample None (Some 0) (Hash (Some DEFAULTS)) None ex_world)", THEN conjunct1]
    Sample_missing_arguments [of "Some 1" "Hash (Some DEFAULTS)" None ex_world 0 ex_sample
      "snd (Sample None (Some 0) (Hash (Some DEFAULTS)) None ex_world)", THEN conjunct2, THEN conjunct1]
    Sample_missing_arguments [of None "Hash (Some DEFAULTS)" None ex_world 0 ex_sample
      "snd (Sample None (Some 0) (Hash (Some DEFAULTS)) None ex_world)", THEN conjunct2, THEN conjunct2]
    ex_sample_built ex_sample_result
  by (simp add: ex_sample_def)

section \<open>Stopping and starting a voice\<close>

text \<open>
  C6, as the claim states it, fails when \<open>when\<close> is 0: \<open>when || this.ac.currentTime\<close>
  takes the clock's time for every falsy \<open>when\<close>. On a clock that reads 5, \<open>stop(0)\<close>
  asks the envelope to release at 5 and not at 0.
\<close>

theorem Sample_stop_zero_counterexample:
  "EnvStop (s_env ex_sample) (Num 0) \<notin> set (trace (Sample_stop ex_sample (Num 0) ex_world)) \<and>
   EnvStop (s_env ex_sample) (Num 5) \<in> set (trace (Sample_stop ex_sample (Num 0) ex_world))"
  by (simp add: Sample_stop_def emit_def js_or_def ex_world_def ex_sample_def)

text \<open>
  C6, amended. \<open>Sample.prototype.stop\<close> sends a \<open>stop\<close> event, asks the envelope to begin
  its release at \<open>when\<close> if \<open>when\<close> is a number other than 0, and at the clock's current
  time otherwise (\<open>when\<close> omitted, 0 or \<open>NaN\<close>), and stops the source at exactly the time
  the envelope returned; it does nothing else on the host.
\<close>

theorem Sample_stop_release:
  "trace (Sample_stop s when w) =
     trace w @
     [Event ''stop'' s when,
      EnvStop (s_env s) (case when of Num r \<Rightarrow> if r = 0 then Num (currentTime w) else Num r
                         | _ \<Rightarrow> Num (currentTime w)),
      SourceStop (s_source s)
        (env_stop w (s_env s)
           (case when of Num r \<Rightarrow> if r = 0 then Num (currentTime w) else Num r
            | _ \<Rightarrow> Num (currentTime w)))]"
  by (cases "when") (simp_all add: Sample_stop_def emit_def js_or_def Let_def)

theorem Sample_stop_release_witness:
  "trace (Sample_stop ex_sample (Num 7) ex_world) =
     [Event ''stop'' ex_sample (Num 7), EnvStop 1 (Num 7), SourceStop 3 (Num 7.3)] \<and>
   trace (Sample_stop ex_sample Undefined ex_world) =
     [Event ''stop'' ex_sample Undefined, EnvStop 1 (Num 5), SourceStop 3 (Num 5.3)]"
  using Sample_stop_release [of ex_sample "Num 7" ex_world]
    Sample_stop_release [of ex_sample Undefined ex_world]
  by (simp add: ex_world_def ex_sample_def)

text \<open>
  What \<open>Sample.prototype.start\<close> does, for every \<open>when\<close> and \<open>duration\<close>: it sends a \<open>start\<close>
  event and starts the envelope and the source at \<open>when\<close>; then, if and only if
  \<open>duration\<close> is a positive number, it calls \<open>stop(when + duration)\<close>; nothing else. For a
  start time \<open>t\<close> that is a number and not negative, that stop asks for the release at
  \<open>t + d\<close>.
\<close>

lemma Sample_start_trace:
  "trace (Sample_start s when duration w) =
     trace w @ [Event ''start'' s when, EnvStart (s_env s) when, SourceStart (s_source s) when] @
     (if js_gt0 duration
      then [Event ''stop'' s (js_add when duration),
            EnvStop (s_env s) (js_or (js_add when duration) (Num (currentTime w))),
            SourceStop (s_source s)
              (env_stop w (s_env s) (js_or (js_add when duration) (Num (currentTime w))))]
      else []) \<and>
   js_gt0 duration = (\<exists>d. duration = Num d \<and> 0 < d) \<and>
   (js_gt0 duration \<longrightarrow>
      Sample_start s when duration w =
        Sample_stop s (js_add when duration)
          (emit (SourceStart (s_source s) when)
             (emit (EnvStart (s_env s) when) (emit (Event ''start'' s when) w)))) \<and>
   (0 \<le> t \<longrightarrow> 0 < d \<longrightarrow> js_or (js_add (Num t) (Num d)) (Num (currentTime w)) = Num (t + d))"
proof -
  have pos: "js_gt0 duration = (\<exists>d. duration = Num d \<and> 0 < d)"
    by (cases duration) simp_all
  have tr: "trace (Sample_start s when duration w) =
     trace w @ [Event ''start'' s when, EnvStart (s_env s) when, SourceStart (s_source s) when] @
     (if js_gt0 duration
      then [Event ''stop'' s (js_add when duration),
            EnvStop (s_env s) (js_or (js_add when duration) (Num (currentTime w))),
            SourceStop (s_source s)
              (env_stop w (s_env s) (js_or (js_add when duration) (Num (currentTime w))))]
      else [])"
    by (simp add: Sample_start_def Sample_stop_def emit_def Let_def)
  have inv: "js_gt0 duration \<longrightarrow>
      Sample_start s when duration w =
        Sample_stop s (js_add when duration)
          (emit (SourceStart (s_source s) when)
             (emit (EnvStart (s_env s) when) (emit (Event ''start'' s when) w)))"
    by (simp add: Sample_start_def)
  have rel: "0 \<le> t \<longrightarrow> 0 < d \<longrightarrow> js_or (js_add (Num t) (Num d)) (Num (currentTime w)) = Num (t + d)"
    by (simp add: js_or_def)
  from tr pos inv rel show ?thesis by blast
qed

text \<open>
  C7 fails in the code when \<open>when\<close> is omitted, which the comment on \<open>start\<close> allows
  (\<open>when - (Optional) when to start the sample or now\<close>): the source then starts now, but
  \<open>when + duration\<close> is \<open>undefined + duration\<close>, that is \<open>NaN\<close>, and \<open>stop(NaN)\<close> asks for the
  release at the clock's current time: the stop is not \<open>duration\<close> seconds after the
  start but at once. \<open>Player.prototype.start\<close> puts the clock's time in the place of a
  missing \<open>when\<close> before it calls \<open>start\<close>; \<open>Sample.prototype.start\<close> does not.
\<close>

theorem Sample_start_omitted_when:
  "trace (Sample_start s Undefined duration w) =
     trace w @
     [Event ''start'' s Undefined, EnvStart (s_env s) Undefined, SourceStart (s_source s) Undefined] @
     (if js_gt0 duration
      then [Event ''stop'' s NaN, EnvStop (s_env s) (Num (currentTime w)),
            SourceStop (s_source s) (env_stop w (s_env s) (Num (currentTime w)))]
      else [])"
  by (cases duration) (simp_all add: Sample_start_def Sample_stop_def emit_def js_or_def Let_def)

theorem Sample_start_omitted_when_witness:
  "trace (Sample_start ex_sample Undefined (Num 2) ex_world) =
     [Event ''start'' ex_sample Undefined, EnvStart 1 Undefined, SourceStart 3 Undefined,
      Event ''stop'' ex_sample NaN, EnvStop 1 (Num 5), SourceStop 3 (Num 5.3)] \<and>
   EnvStop 1 (Num 7) \<notin> set (trace (Sample_start ex_sample Undefined (Num 2) ex_world))"
  using Sample_start_omitted_when [of ex_sample "Num 2" ex_world]
  by (simp add: ex_world_def ex_sample_def)

section \<open>The end of a voice\<close>

text \<open>
  C1. When the host tells a source that it has finished, which it does for a natural end
  and for a scheduled stop alike, the handler sends an \<open>ended\<close> event, stops the source,
  disconnects the source, the filter, the amplitude and the envelope, one call each,
  and calls the voice's \<open>onended\<close> callback once; a node of a sample that the
  constructor or the player made is disconnected exactly once, and the player's
  callback takes the voice's id out of the registry. This is the only place where
  voices are released: \<open>stop\<close> and \<open>start\<close> disconnect nothing and call no callback.
\<close>

theorem source_onended_cleanup:
  "trace (source_onended s w) =
     trace w @
     [Event ''ended'' s Undefined, SourceStop (s_source s) Undefined,
      Disconnect (s_source s), Disconnect (s_filter s), Disconnect (s_amp s), Disconnect (s_env s),
      Onended s] \<and>
   (distinct (nodes_of s) \<longrightarrow> n \<in> set (nodes_of s) \<longrightarrow>
      count_list (drop (length (trace w)) (trace (source_onended s w))) (Disconnect n) = 1) \<and>
   (Sample buf dest opt ev w0 = (Inr s, w1) \<longrightarrow> distinct (nodes_of s)) \<and>
   (Player_start buf when duration hopt dest w0 = (Inr s, w1) \<longrightarrow> distinct (nodes_of s)) \<and>
   (s_onended s = Delete_tracked \<longrightarrow> s_id s = Some i \<longrightarrow>
      map_of (playing (source_onended s w)) i = None) \<and>
   filter is_cleanup (trace (Sample_stop s when w)) = filter is_cleanup (trace w) \<and>
   filter is_cleanup (trace (Sample_start s when duration w)) = filter is_cleanup (trace w)"
proof -
  have run_cb: "trace (run_callback s v) = trace v" for v
    by (simp add: run_callback_def split: callback.splits option.splits)
  have tr: "trace (source_onended s w) =
     trace w @
     [Event ''ended'' s Undefined, SourceStop (s_source s) Undefined,
      Disconnect (s_source s), Disconnect (s_filter s), Disconnect (s_amp s), Disconnect (s_env s),
      Onended s]"
    by (simp add: source_onended_def run_cb emit_def)
  have once: "distinct (nodes_of s) \<longrightarrow> n \<in> set (nodes_of s) \<longrightarrow>
      count_list (drop (length (trace w)) (trace (source_onended s w))) (Disconnect n) = 1"
    by (auto simp: tr nodes_of_def)
  have built: "Sample buf dest opt ev w0 = (Inr s, w1) \<longrightarrow> distinct (nodes_of s)"
  proof (cases dest)
    case None
    then show ?thesis by (simp add: Sample_def)
  next
    case (Some d)
    then show ?thesis using Sample_result [of buf d opt ev w0 "Inr s" w1]
      by (auto simp: nodes_of_def)
  qed
  have started: "Player_start buf when duration hopt dest w0 = (Inr s, w1) \<longrightarrow> distinct (nodes_of s)"
    by (auto dest: Player_start_nodes)
  have cb: "s_onended s = Delete_tracked \<longrightarrow> s_id s = Some i \<longrightarrow>
      map_of (playing (source_onended s w)) i = None"
    by (simp add: source_onended_def run_callback_def Let_def emit_def AList.delete_conv')
  have stop: "filter is_cleanup (trace (Sample_stop s t v)) = filter is_cleanup (trace v)" for t v
    by (simp add: Sample_stop_def emit_def Let_def)
  have start: "filter is_cleanup (trace (Sample_start s when duration w)) = filter is_cleanup (trace w)"
    by (simp add: Sample_start_def stop emit_def Let_def)
  from tr once built started cb stop [of "when" w] start show ?thesis by blast
qed

theorem source_onended_cleanup_witness:
  "trace (source_onended ex_sample ex_world) =
     [Event ''ended'' ex_sample Undefined, SourceStop 3 Undefined,
      Disconnect 3, Disconnect 2, Disconnect 0, Disconnect 1, Onended ex_sample] \<and>
   count_list (trace (source_onended ex_sample ex_world)) (Disconnect 2) = 1 \<and>
   distinct (nodes_of ex_voice) \<and>
   map_of (playing (source_onended ex_voice ex_one)) 1 = None"
proof -
  note a = source_onended_cleanup [where s = ex_sample and w = ex_world and n = 2 and buf = None
      and dest = "Some 0" and opt = "Hash (Some DEFAULTS)" and ev = None and ?w0.0 = ex_world
      and ?w1.0 = "snd (Sample None (Some 0) (Hash (Some DEFAULTS)) None ex_world)"]
  note b = source_onended_cleanup [where s = ex_voice and w = ex_one and i = 1 and buf = None
      and ?when = Undefined and duration = Undefined and hopt = None and dest = None
      and ?w0.0 = ex_player and ?w1.0 = ex_one]
  from a ex_sample_built have "distinct (nodes_of ex_sample)" by blast
  with a have "trace (source_onended ex_sample ex_world) =
     [Event ''ended'' ex_sample Undefined, SourceStop 3 Undefined,
      Disconnect 3, Disconnect 2, Disconnect 0, Disconnect 1, Onended ex_sample] \<and>
     count_list (trace (source_onended ex_sample ex_world)) (Disconnect 2) = 1"
    by (simp add: ex_sample_def ex_world_def nodes_of_def)
  moreover from b ex_player_start
  have "distinct (nodes_of ex_voice) \<and> map_of (playing (source_onended ex_voice ex_one)) 1 = None"
    by (simp add: ex_voice_def)
  ultimately show ?thesis by blast
qed

section \<open>Stopping on the player\<close>

text \<open>
  C2. \<open>Player.prototype.stop\<close> with no ids stops every registered voice (each gets the
  calls of its \<open>stop()\<close>), leaves the registry empty, and returns the ids that were
  registered, in ascending order: as many as there were voices, none for an empty
  registry.
\<close>

theorem Player_stop_all:
  "fst (Player_stop when NoIds w) = Many (map Some (Object_keys (playing w))) \<and>
   playing (snd (Player_stop when NoIds w)) = [] \<and>
   length (Object_keys (playing w)) = card (dom (map_of (playing w))) \<and>
   (map_of (playing w) i = Some p \<longrightarrow>
      set (stop_now p w) \<subseteq> set (trace (snd (Player_stop when NoIds w))))"
proof -
  let ?ks = "Object_keys (playing w)"
  have eq: "Player_stop when NoIds w = (Many (fst (map_stopById ?ks w)), snd (map_stopById ?ks w))"
    by (simp add: Player_stop_def case_prod_beta)
  have 3: "map_of (playing w) i = Some p \<longrightarrow>
      set (stop_now p w) \<subseteq> set (trace (snd (map_stopById ?ks w)))"
  proof
    assume p: "map_of (playing w) i = Some p"
    then have "i \<in> set ?ks" by (auto simp: Object_keys_set dest: map_of_SomeD intro: rev_image_eqI)
    then show "set (stop_now p w) \<subseteq> set (trace (snd (map_stopById ?ks w)))"
      using p by (rule map_stopById_stops)
  qed
  from eq stop_all_result [of w] 3 Object_keys_card [of "playing w"] show ?thesis by simp
qed

theorem Player_stop_all_witness:
  "fst (Player_stop (Num 9) NoIds ex_two) = Many [Some 1, Some 2] \<and>
   playing (snd (Player_stop (Num 9) NoIds ex_two)) = [] \<and>
   Event ''stop'' ex_voice2 Undefined \<in> set (trace (snd (Player_stop (Num 9) NoIds ex_two)))"
  using Player_stop_all [of "Num 9" ex_two 2 ex_voice2]
  by (simp add: ex_two_fields Object_keys_def stop_now_def)

text \<open>
  C4. \<open>Player.prototype.stop\<close> does not pass its \<open>when\<close> on: its result and the state it
  leaves are the same for every \<open>when\<close>; everything it adds to the trace is a call made
  by a \<open>stop()\<close> without argument, so every release is asked at the clock's current
  time; stopping one registered voice adds exactly the calls of its \<open>stop()\<close>.
\<close>

theorem Player_stop_ignores_when:
  "Player_stop when ids w = Player_stop when' ids w \<and>
   (\<exists>ys. trace (snd (Player_stop when ids w)) = trace w @ ys \<and>
         list_all (stop_call (currentTime w)) ys) \<and>
   (i \<noteq> 0 \<longrightarrow> map_of (playing w) i = Some p \<longrightarrow>
      trace (snd (Player_stop when (OneId i) w)) = trace w @ stop_now p w)"
proof -
  have 1: "Player_stop when ids w = Player_stop when' ids w"
    by (simp add: Player_stop_def)
  have 2: "\<exists>ys. trace (snd (Player_stop when ids w)) = trace w @ ys \<and>
         list_all (stop_call (currentTime w)) ys"
  proof (cases ids)
    case NoIds
    with map_stopById_trace [of "Object_keys (playing w)" w] show ?thesis
      by (simp add: Player_stop_def case_prod_beta)
  next
    case (OneId k)
    with map_stopById_trace [of "Object_keys (playing w)" w] stopById_trace [of k w] show ?thesis
      by (simp add: Player_stop_def case_prod_beta)
  next
    case (IdList xs)
    with map_stopById_trace [of xs w] show ?thesis
      by (simp add: Player_stop_def case_prod_beta)
  qed
  have 3: "i \<noteq> 0 \<longrightarrow> map_of (playing w) i = Some p \<longrightarrow>
      trace (snd (Player_stop when (OneId i) w)) = trace w @ stop_now p w"
    by (simp add: Player_stop_def stopById_present)
  from 1 2 3 show ?thesis by blast
qed

theorem Player_stop_ignores_when_witness:
  "trace (snd (Player_stop (Num 9) (OneId 1) ex_one)) =
     trace ex_one @ [Event ''stop'' ex_voice Undefined, EnvStop 2 (Num 5), SourceStop 4 (Num 5.3)]"
  using Player_stop_ignores_when [of "Num 9" "OneId 1" ex_one Undefined 1 ex_voice,
      THEN conjunct2, THEN conjunct2]
  by (simp add: ex_one_fields stop_now_def ex_voice_def)

text \<open>
  C5, as the claim states it, fails for the id 0, which no voice ever has: \<open>!ids\<close> holds
  for it, so \<open>stop(when, 0)\<close> stops every voice and returns the list of their ids. With
  the voice 1 registered, the result is the list of 1 and the registry is emptied.
\<close>

theorem Player_stop_zero_counterexample:
  "map_of (playing ex_one) 0 = None \<and>
   fst (Player_stop Undefined (OneId 0) ex_one) = Many [Some 1] \<and>
   playing ex_one = [(1, ex_voice)] \<and>
   playing (snd (Player_stop Undefined (OneId 0) ex_one)) = []"
  using stop_all_result [of ex_one]
  by (simp add: ex_one_fields Object_keys_def Player_stop_def case_prod_beta)

text \<open>
  C5, amended. Stopping a single id other than 0 that is not in the registry returns
  \<open>null\<close> and changes nothing. Stopping a sequence of ids returns a list of the same
  length with \<open>null\<close> at the position of every id that is not in the registry, changes
  nothing when none of the ids is in the registry, and in any case takes out of the
  registry only ids of the sequence. Nothing is raised.
\<close>

theorem Player_stop_unknown:
  "(i \<noteq> 0 \<longrightarrow> map_of (playing w) i = None \<longrightarrow> Player_stop when (OneId i) w = (One None, w)) \<and>
   (j < length xs \<longrightarrow> map_of (playing w) (xs ! j) = None \<longrightarrow>
      (\<exists>rs. fst (Player_stop when (IdList xs) w) = Many rs \<and> length rs = length xs \<and> rs ! j = None)) \<and>
   ((\<forall>k \<in> set xs. map_of (playing w) k = None) \<longrightarrow>
      Player_stop when (IdList xs) w = (Many (map (\<lambda>k. None) xs), w)) \<and>
   playing (snd (Player_stop when (IdList xs) w)) = filter (\<lambda>(k, v). k \<notin> set xs) (playing w)"
proof -
  have eq: "Player_stop when (IdList xs) w = (Many (fst (map_stopById xs w)), snd (map_stopById xs w))"
    by (simp add: Player_stop_def case_prod_beta)
  have 1: "i \<noteq> 0 \<longrightarrow> map_of (playing w) i = None \<longrightarrow> Player_stop when (OneId i) w = (One None, w)"
    by (simp add: Player_stop_def stopById_absent)
  have 2: "j < length xs \<longrightarrow> map_of (playing w) (xs ! j) = None \<longrightarrow>
      (\<exists>rs. fst (Player_stop when (IdList xs) w) = Many rs \<and> length rs = length xs \<and> rs ! j = None)"
    by (simp add: eq map_stopById_length map_stopById_null)
  have 3: "(\<forall>k \<in> set xs. map_of (playing w) k = None) \<longrightarrow>
      Player_stop when (IdList xs) w = (Many (map (\<lambda>k. None) xs), w)"
  proof
    assume "\<forall>k \<in> set xs. map_of (playing w) k = None"
    then have "set xs \<inter> fst ` set (playing w) = {}"
      by (auto simp: map_of_eq_None_iff)
    then show "Player_stop when (IdList xs) w = (Many (map (\<lambda>k. None) xs), w)"
      by (simp add: eq map_stopById_absent)
  qed
  have 4: "playing (snd (Player_stop when (IdList xs) w)) = filter (\<lambda>(k, v). k \<notin> set xs) (playing w)"
    by (simp add: eq map_stopById_playing)
  from 1 2 3 4 show ?thesis by blast
qed

theorem Player_stop_unknown_witness:
  "Player_stop (Num 9) (OneId 9999) ex_player = (One None, ex_player) \<and>
   Player_stop (Num 9) (IdList [7, 0]) ex_one = (Many [None, None], ex_one)"
  using Player_stop_unknown [of 9999 ex_player "Num 9" 0 "[]", THEN conjunct1]
    Player_stop_unknown [of 9999 ex_one "Num 9" 0 "[7, 0]", THEN conjunct2, THEN conjunct2, THEN conjunct1]
  by (simp add: ex_one_fields ex_player_playing)

section \<open>Voice ids\<close>

text \<open>
  C3. On a new player, whatever calls of \<open>stop\<close>, ends of sources and moves of the clock
  come in between, the voices that the calls of \<open>start\<close> return have the ids 1, 2, 3 and
  so on, in the order of the calls: the ids are distinct and increasing, start at 1,
  and none is given twice. (A call of \<open>start\<close> that throws returns no voice and uses no
  id.)
\<close>

theorem ids_of_started_voices:
  "map s_id (fst (run ops (Player ac opt w))) =
     map Some [1 ..< Suc (length (fst (run ops (Player ac opt w))))] \<and>
   distinct (map s_id (fst (run ops (Player ac opt w)))) \<and>
   (j < length (fst (run ops (Player ac opt w))) \<longrightarrow>
      s_id (fst (run ops (Player ac opt w)) ! j) = Some (Suc j))"
proof -
  let ?ss = "fst (run ops (Player ac opt w))"
  from run_ids [of ops "Player ac opt w"]
  have eq: "map s_id ?ss = map Some [1 ..< Suc (length ?ss)]"
    by (simp add: Player_nextId del: upt_Suc)
  then have d: "distinct (map s_id ?ss)"
    by (simp add: distinct_map)
  have "j < length ?ss \<longrightarrow> s_id (?ss ! j) = Some (Suc j)"
  proof
    assume j: "j < length ?ss"
    then have "s_id (?ss ! j) = map s_id ?ss ! j" by simp
    also from j have "\<dots> = Some (Suc j)" by (simp only: eq) (simp del: upt_Suc)
    finally show "s_id (?ss ! j) = Some (Suc j)" .
  qed
  with eq d show ?thesis by blast
qed

theorem ids_of_started_voices_witness:
  "map s_id (fst (run ex_ops (Player AudioContext None ex_world))) = [Some 1, Some 2]"
  using ids_of_started_voices [of ex_ops AudioContext None ex_world 1] ex_ops_length
  by (simp add: ex_player_def upt_conv_Cons del: upt_Suc)

end
